theory Spec2Isabelle
  imports Main "HOL-Library.AList"
begin

section \<open>Python values, dictionaries and errors\<close>

text \<open>
  The store in \<^verbatim>\<open>lib/long_memory.py\<close> moves dynamically typed values between
  fragments and metadata dictionaries. A metadata value is one of the scalar values the
  vector engine stores; \<open>PNone\<close> is Python's \<^verbatim>\<open>None\<close>, which \<^verbatim>\<open>dict.get\<close> returns for a
  missing key.
\<close>

datatype pyval = PNone | PBool bool | PInt int | PStr string

text \<open>
  A dictionary is an association list with one entry per key, in insertion order.
  \<open>dict_get d k dflt\<close> is \<^verbatim>\<open>d.get(k, dflt)\<close>; \<open>dict_update d other\<close> is
  \<^verbatim>\<open>d.update(other)\<close>: every item of \<open>other\<close> is written into \<open>d\<close> in turn, replacing
  the value of a key that is already there.
\<close>

type_synonym dict = "(string \<times> pyval) list"

definition dict_get :: "dict \<Rightarrow> string \<Rightarrow> pyval \<Rightarrow> pyval" where
  "dict_get d k dflt = (case map_of d k of None \<Rightarrow> dflt | Some v \<Rightarrow> v)"

definition dict_update :: "dict \<Rightarrow> dict \<Rightarrow> dict" where
  "dict_update d other = fold (\<lambda>(k, v). AList.update k v) other d"

text \<open>What the store can raise: the two lookup errors of its own code, and whatever the
  engine raises, which the store passes on unchanged.\<close>

datatype py_error = KeyError | IndexError | EngineError

text \<open>\<^verbatim>\<open>xs[0]\<close>: the element at index 0, or \<^verbatim>\<open>IndexError\<close> on the empty list.\<close>

fun index0 :: "'a list \<Rightarrow> py_error + 'a" where
  "index0 [] = Inl IndexError"
| "index0 (x # xs) = Inr x"

section \<open>Data model\<close>

text \<open>
  \<^verbatim>\<open>MemoryFragment\<close> is a dataclass; nothing checks its field types, and \<^verbatim>\<open>search\<close>
  fills \<open>owner\<close>, \<open>namespace\<close> and \<open>timestamp\<close> with whatever the metadata holds
  (\<^verbatim>\<open>None\<close> included), so these three fields are Python values.
\<close>

record MemoryFragment =
  content :: string
  owner :: pyval
  namespace :: pyval
  timestamp :: pyval

text \<open>\<^verbatim>\<open>TimestampFilter\<close>: both bounds default to \<^verbatim>\<open>None\<close>.\<close>

record TimestampFilter =
  greater_than_value :: "int option"
  lower_than_value :: "int option"

text \<open>
  \<^verbatim>\<open>MemorySearchResult\<close>: the fragments and a dictionary that \<^verbatim>\<open>search\<close> fills with
  the single key \<^verbatim>\<open>"distances"\<close>. The distances are the engine's floats; the store only
  passes them on, so their type is a parameter.
\<close>

record 'd MemorySearchResult =
  fragments :: "MemoryFragment list"
  metadata :: "(string \<times> 'd list) list"

text \<open>\<^verbatim>\<open>Document(content=..., metadata=...)\<close>, the value handed to the engine's \<^verbatim>\<open>add\<close>.\<close>

record Document =
  doc_content :: string
  doc_metadata :: dict

section \<open>The vector engine at its boundary\<close>

text \<open>
  The filter predicate \<^verbatim>\<open>{"$and": [{field: {op: value}}, ...]}\<close> that \<^verbatim>\<open>search\<close>
  builds: a list of conditions under one \<^verbatim>\<open>$and\<close>.
\<close>

datatype cmp_op = OpEq | OpGt | OpLt

datatype condition = Condition string cmp_op pyval

datatype where_clause = WhereAnd "condition list"

text \<open>
  The dictionary the engine's \<^verbatim>\<open>query\<close> returns. Each of the three keys may be absent
  (\<open>None\<close>); a present key is bound to a list of lists, one inner list per query text.
\<close>

record 'd query_result =
  documents :: "string list list option"
  metadatas :: "dict list list option"
  distances :: "'d list list option"

text \<open>The contents of one collection: the documents added so far, oldest first.\<close>

type_synonym collection = "Document list"

text \<open>One element of the sequence the engine's \<^verbatim>\<open>get\<close> returns: a dictionary whose
  key \<^verbatim>\<open>"metadatas"\<close> is bound to a list of metadata dictionaries.\<close>

type_synonym get_entry = "(string \<times> dict list) list"

text \<open>
  Modelled from the spec: \<^verbatim>\<open>collection.add\<close> of \<^verbatim>\<open>lib/vector_db.py\<close>, which is not among
  the source files. Section 6: it stores the content with its metadata; section 4.1:
  one new record is appended, with no deduplication.
\<close>

definition vs_add :: "collection \<Rightarrow> Document \<Rightarrow> collection" where
  "vs_add vector_store doc = vector_store @ [doc]"

text \<open>
  Modelled from the spec: \<^verbatim>\<open>collection.get\<close> of \<^verbatim>\<open>lib/vector_db.py\<close>, which is not among
  the source files. Section 6: a sequence with one element per stored record, each
  holding that record's metadata under \<^verbatim>\<open>"metadatas"\<close>.
\<close>

definition vs_get :: "collection \<Rightarrow> get_entry list" where
  "vs_get vector_store = map (\<lambda>doc. [(''metadatas'', [doc_metadata doc])]) vector_store"

text \<open>
  Modelled from the spec: \<^verbatim>\<open>create_store\<close> of the engine factory in
  \<^verbatim>\<open>lib/vector_db.py\<close>, which is not among the source files. The factory's state maps
  collection names to contents; the handle it returns is the collection's name.
  Section 6: with \<open>force\<close> set, an existing collection of that name is destroyed and
  recreated. The spec does not say what happens without \<open>force\<close>; an existing collection
  is kept here, and nothing below depends on that branch.
\<close>

definition create_store ::
  "(string \<rightharpoonup> collection) \<Rightarrow> string \<Rightarrow> bool \<Rightarrow> (string \<rightharpoonup> collection) \<times> string" where
  "create_store db name force =
     (if force then (db(name \<mapsto> []), name)
      else (case db name of None \<Rightarrow> (db(name \<mapsto> []), name) | Some _ \<Rightarrow> (db, name)))"

text \<open>
  Modelled from the spec: how the engine reads a filter predicate (section 6, and the
  strict bounds of section 3). A record satisfies \<^verbatim>\<open>{field: {"$eq": v}}\<close> when its
  metadata binds the field to \<open>v\<close>, and \<^verbatim>\<open>$gt\<close>/\<^verbatim>\<open>$lt\<close> when it binds the field to an
  integer strictly above/below the integer \<open>v\<close>; it satisfies an \<^verbatim>\<open>$and\<close> when it
  satisfies every condition.
\<close>

fun satisfies_condition :: "dict \<Rightarrow> condition \<Rightarrow> bool" where
  "satisfies_condition m (Condition field OpEq v) = (map_of m field = Some v)"
| "satisfies_condition m (Condition field OpGt v) =
     (case (map_of m field, v) of (Some (PInt a), PInt b) \<Rightarrow> b < a | _ \<Rightarrow> False)"
| "satisfies_condition m (Condition field OpLt v) =
     (case (map_of m field, v) of (Some (PInt a), PInt b) \<Rightarrow> a < b | _ \<Rightarrow> False)"

fun satisfies :: "dict \<Rightarrow> where_clause \<Rightarrow> bool" where
  "satisfies m (WhereAnd cs) = list_all (satisfies_condition m) cs"

section \<open>LongTermMemory\<close>

subsection \<open>Construction\<close>

text \<open>
  \<^verbatim>\<open>__init__\<close>: \<^verbatim>\<open>self.vector_store = db.create_store("long_term_memory", force=True)\<close>.
  The object holds the handle; the factory's state changes.
\<close>

record LongTermMemory =
  vector_store :: string

definition LongTermMemory_init ::
  "(string \<rightharpoonup> collection) \<Rightarrow> (string \<rightharpoonup> collection) \<times> LongTermMemory" where
  "LongTermMemory_init db =
     (case create_store db ''long_term_memory'' True of
        (db', handle) \<Rightarrow> (db', \<lparr>vector_store = handle\<rparr>))"

subsection \<open>get_namespaces\<close>

text \<open>
  \<^verbatim>\<open>r["metadatas"][0]["namespace"]\<close> for one element \<open>r\<close> of \<^verbatim>\<open>get()\<close>: a missing key
  raises \<^verbatim>\<open>KeyError\<close>, an empty list \<^verbatim>\<open>IndexError\<close>.
\<close>

definition entry_namespace :: "get_entry \<Rightarrow> py_error + pyval" where
  "entry_namespace r =
     (case map_of r ''metadatas'' of
        None \<Rightarrow> Inl KeyError
      | Some ms \<Rightarrow>
          (case index0 ms of
             Inl e \<Rightarrow> Inl e
           | Inr m \<Rightarrow> (case map_of m ''namespace'' of None \<Rightarrow> Inl KeyError | Some v \<Rightarrow> Inr v)))"

text \<open>The list comprehension over the results: the first element that raises ends it.\<close>

fun get_namespaces :: "get_entry list \<Rightarrow> py_error + pyval list" where
  "get_namespaces [] = Inr []"
| "get_namespaces (r # results) =
     (case entry_namespace r of
        Inl e \<Rightarrow> Inl e
      | Inr v \<Rightarrow> (case get_namespaces results of Inl e \<Rightarrow> Inl e | Inr namespaces \<Rightarrow> Inr (v # namespaces)))"

subsection \<open>register\<close>

text \<open>
  The dictionary \<^verbatim>\<open>register\<close> builds: the three keys from the fragment, then
  \<^verbatim>\<open>complete_metadata.update(metadata)\<close> when \<^verbatim>\<open>metadata\<close> is truthy (neither \<^verbatim>\<open>None\<close>
  nor empty).
\<close>

definition complete_metadata :: "MemoryFragment \<Rightarrow> dict option \<Rightarrow> dict" where
  "complete_metadata memory_fragment extra =
     (let base = [(''owner'', owner memory_fragment),
                  (''namespace'', namespace memory_fragment),
                  (''timestamp'', timestamp memory_fragment)]
      in case extra of
           None \<Rightarrow> base
         | Some md \<Rightarrow> if md \<noteq> [] then dict_update base md else base)"

definition register_document :: "MemoryFragment \<Rightarrow> dict option \<Rightarrow> Document" where
  "register_document memory_fragment extra =
     \<lparr>doc_content = content memory_fragment,
      doc_metadata = complete_metadata memory_fragment extra\<rparr>"

definition register :: "collection \<Rightarrow> MemoryFragment \<Rightarrow> dict option \<Rightarrow> collection" where
  "register store memory_fragment extra =
     vs_add store (register_document memory_fragment extra)"

subsection \<open>search\<close>

text \<open>
  The filter: the two equality conditions, then one condition per truthy bound of a
  filter that is not \<^verbatim>\<open>None\<close>. A \<^verbatim>\<open>TimestampFilter\<close> object is always truthy; a bound is
  truthy when it is neither \<^verbatim>\<open>None\<close> nor \<open>0\<close>.
\<close>

definition where_append :: "where_clause \<Rightarrow> condition \<Rightarrow> where_clause" where
  "where_append w c = (case w of WhereAnd cs \<Rightarrow> WhereAnd (cs @ [c]))"

definition str_or_none :: "string option \<Rightarrow> pyval" where
  "str_or_none s = (case s of None \<Rightarrow> PNone | Some x \<Rightarrow> PStr x)"

definition build_where :: "string option \<Rightarrow> string \<Rightarrow> TimestampFilter option \<Rightarrow> where_clause" where
  "build_where p_namespace p_owner timestamp_filter =
     (let w0 = WhereAnd [Condition ''namespace'' OpEq (str_or_none p_namespace),
                         Condition ''owner'' OpEq (PStr p_owner)]
      in case timestamp_filter of
           None \<Rightarrow> w0
         | Some tf \<Rightarrow>
             (let w1 = (case greater_than_value tf of
                          None \<Rightarrow> w0
                        | Some g \<Rightarrow>
                            if g \<noteq> 0 then where_append w0 (Condition ''timestamp'' OpGt (PInt g))
                            else w0)
              in case lower_than_value tf of
                   None \<Rightarrow> w1
                 | Some l \<Rightarrow>
                     if l \<noteq> 0 then where_append w1 (Condition ''timestamp'' OpLt (PInt l))
                     else w1))"

text \<open>
  The loop \<^verbatim>\<open>for content, meta in zip(documents, metadatas)\<close>: it stops with the
  shorter list and appends one fragment per pair.
\<close>

definition rebuild_fragment :: "string \<Rightarrow> dict \<Rightarrow> MemoryFragment" where
  "rebuild_fragment c meta =
     \<lparr>content = c,
      owner = dict_get meta ''owner'' PNone,
      namespace = dict_get meta ''namespace'' (PStr ''default''),
      timestamp = dict_get meta ''timestamp'' PNone\<rparr>"

fun rebuild_fragments ::
  "string list \<Rightarrow> dict list \<Rightarrow> MemoryFragment list \<Rightarrow> MemoryFragment list" where
  "rebuild_fragments (c # cs) (meta # metas) acc =
     rebuild_fragments cs metas (acc @ [rebuild_fragment c meta])"
| "rebuild_fragments _ _ acc = acc"

text \<open>\<^verbatim>\<open>result.get(key, [[]])\<close> on one of the three keys.\<close>

definition get_or_default :: "'a list list option \<Rightarrow> 'a list list" where
  "get_or_default v = (case v of None \<Rightarrow> [[]] | Some x \<Rightarrow> x)"

text \<open>
  What \<^verbatim>\<open>search\<close> does with the engine's answer (lines 155 to 170), in the order of the
  source: documents, metadatas, the loop, then the distances.
\<close>

definition search_result :: "'d query_result \<Rightarrow> py_error + 'd MemorySearchResult" where
  "search_result result =
     (case index0 (get_or_default (documents result)) of
        Inl e \<Rightarrow> Inl e
      | Inr docs \<Rightarrow>
          (case index0 (get_or_default (metadatas result)) of
             Inl e \<Rightarrow> Inl e
           | Inr metas \<Rightarrow>
               (let frags = rebuild_fragments docs metas []
                in case index0 (get_or_default (distances result)) of
                     Inl e \<Rightarrow> Inl e
                   | Inr ds \<Rightarrow> Inr \<lparr>fragments = frags, metadata = [(''distances'', ds)]\<rparr>)))"

text \<open>
  \<^verbatim>\<open>search\<close>. The engine's \<^verbatim>\<open>query\<close> is a parameter: it receives the query texts, the
  limit and the filter, and answers with a result dictionary or raises; what it raises
  propagates.
\<close>

definition search ::
  "(string list \<Rightarrow> int \<Rightarrow> where_clause \<Rightarrow> py_error + 'd query_result) \<Rightarrow>
   string \<Rightarrow> string \<Rightarrow> int \<Rightarrow> TimestampFilter option \<Rightarrow> string option \<Rightarrow>
   py_error + 'd MemorySearchResult" where
  "search query query_text p_owner limit timestamp_filter p_namespace =
     (case query [query_text] limit (build_where p_namespace p_owner timestamp_filter) of
        Inl e \<Rightarrow> Inl e
      | Inr result \<Rightarrow> search_result result)"

subsection \<open>Sequences of calls, and an engine for concrete runs\<close>

text \<open>The collection after a sequence of \<^verbatim>\<open>register\<close> calls, each a fragment with its
  optional extra metadata.\<close>

definition register_all :: "collection \<Rightarrow> (MemoryFragment \<times> dict option) list \<Rightarrow> collection" where
  "register_all store calls = foldl (\<lambda>s (f, extra). register s f extra) store calls"

text \<open>
  Modelled from the spec: one engine that honours the filter, for running \<^verbatim>\<open>search\<close> on
  concrete collections. It answers with the stored records that satisfy the filter,
  oldest first, at most \<open>n_results\<close> of them. Ranking by similarity belongs to the
  embedding model and is left out: every distance is \<open>0\<close>. The theorems below hold for
  any engine; this one only supplies concrete runs.
\<close>

definition filtering_query ::
  "collection \<Rightarrow> string list \<Rightarrow> int \<Rightarrow> where_clause \<Rightarrow> py_error + nat query_result" where
  "filtering_query store query_texts n_results w =
     (let hits = take (nat n_results) (filter (\<lambda>doc. satisfies (doc_metadata doc) w) store)
      in Inr \<lparr>documents = Some [map doc_content hits],
              metadatas = Some [map doc_metadata hits],
              distances = Some [map (\<lambda>_. 0) hits]\<rparr>)"

section \<open>Auxiliary facts\<close>

lemma map_of_dict_update:
  "distinct (map fst e) \<Longrightarrow> map_of (dict_update d e) = map_of d ++ map_of e"
  unfolding dict_update_def
proof (induction e arbitrary: d)
  case Nil
  then show ?case by simp
next
  case (Cons p e)
  obtain k v where p: "p = (k, v)" by (cases p)
  from Cons.prems p have k: "k \<notin> dom (map_of e)" and d: "distinct (map fst e)"
    by (auto simp: dom_map_of_conv_image_fst)
  have step: "map_of (fold (\<lambda>(k, v). AList.update k v) (p # e) d) =
        map_of (AList.update k v d) ++ map_of e"
    using Cons.IH [OF d] p by simp
  have left: "map_of (AList.update k v d) ++ map_of e = (map_of d ++ map_of e)(k \<mapsto> v)"
    using k by (simp add: AList.update_conv' map_add_upd_left)
  have right: "map_of d ++ map_of (p # e) = (map_of d ++ map_of e)(k \<mapsto> v)"
    using p by simp
  show ?case
    by (simp only: step left right)
qed

lemma index0_Inr_iff: "(index0 xs = Inr y) = (\<exists>ys. xs = y # ys)"
  by (cases xs) auto

lemma index0_Inl_iff: "(index0 xs = Inl e) = (xs = [] \<and> e = IndexError)"
  by (cases xs) auto

lemma build_where_conds:
  "build_where ns a tf =
     WhereAnd ([Condition ''namespace'' OpEq (str_or_none ns), Condition ''owner'' OpEq (PStr a)]
       @ (case tf of None \<Rightarrow> [] | Some f \<Rightarrow>
            (case greater_than_value f of None \<Rightarrow> [] | Some g \<Rightarrow>
               if g \<noteq> 0 then [Condition ''timestamp'' OpGt (PInt g)] else [])
          @ (case lower_than_value f of None \<Rightarrow> [] | Some l \<Rightarrow>
               if l \<noteq> 0 then [Condition ''timestamp'' OpLt (PInt l)] else [])))"
  by (simp add: build_where_def where_append_def Let_def split: option.splits)

lemma rebuild_fragments_map:
  "rebuild_fragments cs ms acc = acc @ map (\<lambda>(c, m). rebuild_fragment c m) (zip cs ms)"
  by (induction cs ms acc rule: rebuild_fragments.induct) simp_all

lemma search_result_Inr:
  assumes "get_or_default (documents r) = docs # dr"
    and "get_or_default (metadatas r) = metas # mr"
    and "get_or_default (distances r) = ds # sr"
  shows "search_result r =
     Inr \<lparr>fragments = map (\<lambda>(c, m). rebuild_fragment c m) (zip docs metas),
          metadata = [(''distances'', ds)]\<rparr>"
  using assms by (simp add: search_result_def rebuild_fragments_map)

lemma search_result_Inr_iff:
  "(search_result r = Inr res) =
   (\<exists>docs dr metas mr ds sr.
      get_or_default (documents r) = docs # dr \<and>
      get_or_default (metadatas r) = metas # mr \<and>
      get_or_default (distances r) = ds # sr \<and>
      res = \<lparr>fragments = map (\<lambda>(c, m). rebuild_fragment c m) (zip docs metas),
             metadata = [(''distances'', ds)]\<rparr>)"
  by (auto simp add: search_result_def index0_Inr_iff index0_Inl_iff rebuild_fragments_map
      split: sum.splits)

lemma map_of_dict_update_other:
  "k \<notin> fst ` set e \<Longrightarrow> map_of (dict_update d e) k = map_of d k"
  unfolding dict_update_def
  by (induction e arbitrary: d) (auto simp: AList.update_conv')

lemma dict_update_keys: "fst ` set (dict_update d e) = fst ` set d \<union> fst ` set e"
  unfolding dict_update_def
  by (induction e arbitrary: d) (simp_all add: AList.dom_update case_prod_beta)

lemma complete_metadata_keys:
  "{''owner'', ''namespace'', ''timestamp''} \<subseteq> fst ` set (complete_metadata f extra)"
proof (cases extra)
  case None
  then show ?thesis by (simp add: complete_metadata_def)
next
  case (Some md)
  then show ?thesis by (simp add: complete_metadata_def Let_def dict_update_keys)
qed

lemma complete_metadata_namespace:
  "\<exists>v. map_of (complete_metadata f extra) ''namespace'' = Some v"
proof -
  have "''namespace'' \<in> fst ` set (complete_metadata f extra)"
    using complete_metadata_keys [of f extra] by blast
  then show ?thesis
    by (metis domD dom_map_of_conv_image_fst)
qed

lemma complete_metadata_untouched:
  assumes "case extra of None \<Rightarrow> True | Some md \<Rightarrow> k \<notin> fst ` set md"
  shows "map_of (complete_metadata f extra) k =
     map_of [(''owner'', owner f), (''namespace'', namespace f), (''timestamp'', timestamp f)] k"
proof (cases extra)
  case None
  then show ?thesis by (simp add: complete_metadata_def)
next
  case (Some md)
  with assms have "k \<notin> fst ` set md" by simp
  then have upd: "map_of (dict_update base md) k = map_of base k" for base
    by (rule map_of_dict_update_other)
  define base where
    "base = [(''owner'', owner f), (''namespace'', namespace f), (''timestamp'', timestamp f)]"
  have "complete_metadata f extra = (if md \<noteq> [] then dict_update base md else base)"
    using Some by (simp add: complete_metadata_def Let_def base_def)
  then have "map_of (complete_metadata f extra) k = map_of base k"
    using upd [of base] by (cases "md = []") simp_all
  then show ?thesis
    unfolding base_def .
qed

lemma register_all_append:
  "register_all store calls = store @ map (\<lambda>(f, extra). register_document f extra) calls"
  unfolding register_all_def
  by (induction calls arbitrary: store) (auto simp: register_def vs_add_def)

lemma get_namespaces_vs_get:
  assumes "\<forall>d \<in> set store. \<exists>v. map_of (doc_metadata d) ''namespace'' = Some v"
  shows "get_namespaces (vs_get store) =
     Inr (map (\<lambda>d. dict_get (doc_metadata d) ''namespace'' PNone) store)"
  using assms
  by (induction store) (auto simp: vs_get_def entry_namespace_def dict_get_def)

lemma count_list_map_filter:
  "count_list (map f xs) v = length (filter (\<lambda>x. f x = v) xs)"
  by (induction xs) auto

lemma complete_metadata_lookup:
  assumes "distinct (map fst md)"
  shows "map_of (complete_metadata frag (Some md)) k =
     (case map_of md k of
        Some v \<Rightarrow> Some v
      | None \<Rightarrow> map_of [(''owner'', owner frag), (''namespace'', namespace frag),
                        (''timestamp'', timestamp frag)] k)"
proof (cases "md = []")
  case True
  then show ?thesis by (simp add: complete_metadata_def)
next
  case False
  then show ?thesis
    using map_of_dict_update [OF assms]
    by (simp add: complete_metadata_def map_add_def split: option.splits)
qed

lemma satisfies_owner:
  "satisfies m (build_where ns a tf) \<Longrightarrow> map_of m ''owner'' = Some (PStr a)"
  by (simp add: build_where_conds)

section \<open>The filter that search submits\<close>

text \<open>
  C2. For every call of \<^verbatim>\<open>search\<close>, the filter submitted to the engine, with the query
  text and the limit, is one \<^verbatim>\<open>$and\<close> over a list of conditions. The list always holds \<^verbatim>\<open>namespace == namespace\<close> and
  \<^verbatim>\<open>owner == owner\<close>. It holds \<^verbatim>\<open>timestamp > g\<close> exactly when a filter is given and its
  \<^verbatim>\<open>greater_than_value\<close> is \<open>g\<close> and truthy (not \<^verbatim>\<open>None\<close>, not \<open>0\<close>), and
  \<^verbatim>\<open>timestamp < l\<close> exactly when a filter is given and its \<^verbatim>\<open>lower_than_value\<close> is \<open>l\<close>
  and truthy. Every condition of the list is one of these four.
\<close>

theorem search_filter_conditions:
  "\<exists>cs. build_where ns a tf = WhereAnd cs \<and>
     search query q a limit tf ns =
       (case query [q] limit (WhereAnd cs) of Inl e \<Rightarrow> Inl e | Inr r \<Rightarrow> search_result r) \<and>
     Condition ''namespace'' OpEq (str_or_none ns) \<in> set cs \<and>
     Condition ''owner'' OpEq (PStr a) \<in> set cs \<and>
     (\<forall>g. (Condition ''timestamp'' OpGt (PInt g) \<in> set cs) =
            (\<exists>f. tf = Some f \<and> greater_than_value f = Some g \<and> g \<noteq> 0)) \<and>
     (\<forall>l. (Condition ''timestamp'' OpLt (PInt l) \<in> set cs) =
            (\<exists>f. tf = Some f \<and> lower_than_value f = Some l \<and> l \<noteq> 0)) \<and>
     (\<forall>c \<in> set cs.
        c = Condition ''namespace'' OpEq (str_or_none ns) \<or>
        c = Condition ''owner'' OpEq (PStr a) \<or>
        (\<exists>g. c = Condition ''timestamp'' OpGt (PInt g)) \<or>
        (\<exists>l. c = Condition ''timestamp'' OpLt (PInt l)))"
  by (auto simp add: search_def build_where_conds split: option.splits)

theorem search_filter_conditions_witness:
  "build_where (Some ''work'') ''u1''
     (Some \<lparr>greater_than_value = Some 150, lower_than_value = Some 0\<rparr>) =
   WhereAnd [Condition ''namespace'' OpEq (PStr ''work''),
             Condition ''owner'' OpEq (PStr ''u1''),
             Condition ''timestamp'' OpGt (PInt 150)]"
  using search_filter_conditions
    [where ns = "Some ''work''" and a = "''u1''"
       and tf = "Some \<lparr>greater_than_value = Some 150, lower_than_value = Some 0\<rparr>"]
  by (simp add: build_where_conds str_or_none_def)

text \<open>
  C3. A lower bound of \<open>0\<close> is left out of the filter: for every query text, owner, limit
  and namespace, \<^verbatim>\<open>search\<close> with \<^verbatim>\<open>TimestampFilter(greater_than_value=0)\<close> submits the same
  query to the engine, and so returns the same result, as the same call with no lower
  bound (a filter whose \<^verbatim>\<open>greater_than_value\<close> is \<^verbatim>\<open>None\<close>, or no filter at all). This holds
  whatever the upper bound is.
\<close>

theorem zero_lower_bound_omitted:
  "build_where ns a (Some \<lparr>greater_than_value = Some 0, lower_than_value = l\<rparr>) =
     build_where ns a (Some \<lparr>greater_than_value = None, lower_than_value = l\<rparr>) \<and>
   build_where ns a (Some \<lparr>greater_than_value = Some 0, lower_than_value = None\<rparr>) =
     build_where ns a None \<and>
   search query q a limit (Some \<lparr>greater_than_value = Some 0, lower_than_value = l\<rparr>) ns =
     search query q a limit (Some \<lparr>greater_than_value = None, lower_than_value = l\<rparr>) ns \<and>
   search query q a limit (Some \<lparr>greater_than_value = Some 0, lower_than_value = None\<rparr>) ns =
     search query q a limit None ns"
  by (simp add: search_def build_where_def)

section \<open>The result that search rebuilds\<close>

text \<open>
  C4, as amended. Whenever \<^verbatim>\<open>search\<close> returns a result for an engine response, the
  number of fragments is the smaller of the lengths of the first documents list and
  the first metadatas list, and the result's \<^verbatim>\<open>"distances"\<close> is the first distances list
  as the engine gave it (each key read with the default \<^verbatim>\<open>[[]]\<close>). So fragments and
  distances have the same length whenever the engine's three inner lists have the same
  length; the store does not check that they do.
\<close>

theorem search_result_lengths:
  assumes "search_result r = Inr res"
  shows "\<exists>docs dr metas mr ds sr.
      get_or_default (documents r) = docs # dr \<and>
      get_or_default (metadatas r) = metas # mr \<and>
      get_or_default (distances r) = ds # sr \<and>
      length (fragments res) = min (length docs) (length metas) \<and>
      map_of (metadata res) ''distances'' = Some ds \<and>
      (length docs = length ds \<and> length metas = length ds \<longrightarrow>
         length (fragments res) = length ds)"
  using assms unfolding search_result_Inr_iff by fastforce

text \<open>A response with two aligned results: two fragments, two distances.\<close>

theorem search_result_lengths_witness:
  "search_result
     \<lparr>documents = Some [[''a'', ''b'']],
      metadatas = Some [[[(''owner'', PStr ''u1'')], [(''owner'', PStr ''u1'')]]],
      distances = Some [[1, 2 :: nat]]\<rparr> =
   Inr \<lparr>fragments =
          [\<lparr>content = ''a'', owner = PStr ''u1'', namespace = PStr ''default'', timestamp = PNone\<rparr>,
           \<lparr>content = ''b'', owner = PStr ''u1'', namespace = PStr ''default'', timestamp = PNone\<rparr>],
        metadata = [(''distances'', [1, 2])]\<rparr> \<and>
   length [\<lparr>content = ''a'', owner = PStr ''u1'', namespace = PStr ''default'', timestamp = PNone\<rparr>,
           \<lparr>content = ''b'', owner = PStr ''u1'', namespace = PStr ''default'', timestamp = PNone\<rparr>] =
   length [1, 2 :: nat]"
proof -
  let ?r = "\<lparr>documents = Some [[''a'', ''b'']],
      metadatas = Some [[[(''owner'', PStr ''u1'')], [(''owner'', PStr ''u1'')]]],
      distances = Some [[1, 2 :: nat]]\<rparr>"
  let ?res = "\<lparr>fragments =
          [\<lparr>content = ''a'', owner = PStr ''u1'', namespace = PStr ''default'', timestamp = PNone\<rparr>,
           \<lparr>content = ''b'', owner = PStr ''u1'', namespace = PStr ''default'', timestamp = PNone\<rparr>],
        metadata = [(''distances'', [1, 2 :: nat])]\<rparr>"
  have run: "search_result ?r = Inr ?res"
    by (simp add: search_result_def get_or_default_def rebuild_fragment_def
        dict_get_def)
  from search_result_lengths [OF run] show ?thesis
    using run by simp
qed

text \<open>
  The claim as written fails on a response the store accepts: one document with its
  metadata and no \<^verbatim>\<open>"distances"\<close> key gives one fragment and an empty distance list.
\<close>

theorem result_alignment_counterexample:
  "search_result
     \<lparr>documents = Some [[''hello'']],
      metadatas = Some [[[(''owner'', PStr ''u1'')]]],
      distances = (None :: nat list list option)\<rparr> =
   Inr \<lparr>fragments =
          [\<lparr>content = ''hello'', owner = PStr ''u1'', namespace = PStr ''default'',
            timestamp = PNone\<rparr>],
        metadata = [(''distances'', [])]\<rparr> \<and>
   length [\<lparr>content = ''hello'', owner = PStr ''u1'', namespace = PStr ''default'',
            timestamp = PNone\<rparr>] \<noteq> length ([] :: nat list)"
  by (simp add: search_result_def get_or_default_def rebuild_fragment_def
      dict_get_def)

text \<open>
  C10. If the engine's response binds \<^verbatim>\<open>documents\<close>, \<^verbatim>\<open>metadatas\<close> or \<^verbatim>\<open>distances\<close> to an
  empty outer list, \<^verbatim>\<open>search\<close> raises \<^verbatim>\<open>IndexError\<close>: the default \<^verbatim>\<open>[[]]\<close> stands in for
  an absent key only, and \<^verbatim>\<open>[][0]\<close> is out of range.
\<close>

theorem empty_outer_list_raises:
  assumes "query [q] limit (build_where ns a tf) = Inr r"
    and "documents r = Some [] \<or> metadatas r = Some [] \<or> distances r = Some []"
  shows "search query q a limit tf ns = Inl IndexError"
  using assms
  by (auto simp add: search_def search_result_def get_or_default_def index0_Inl_iff
      split: sum.splits)

theorem empty_outer_list_raises_witness:
  "search (\<lambda>query_texts n_results w.
             Inr \<lparr>documents = Some [], metadatas = Some [], distances = Some ([] :: nat list list)\<rparr>)
     ''coffee'' ''u1'' 3 None (Some ''default'') = Inl IndexError"
  by (rule empty_outer_list_raises [where r =
        "\<lparr>documents = Some [], metadatas = Some [], distances = Some ([] :: nat list list)\<rparr>"])
     simp_all

text \<open>
  C5, as amended. For every engine response in which each of the keys \<^verbatim>\<open>documents\<close>,
  \<^verbatim>\<open>metadatas\<close> and \<^verbatim>\<open>distances\<close> is absent or bound to a non-empty outer list,
  \<^verbatim>\<open>search\<close> does not raise. An absent key reads as an empty sequence: without
  \<^verbatim>\<open>documents\<close> or without \<^verbatim>\<open>metadatas\<close> there are no fragments, and without
  \<^verbatim>\<open>distances\<close> the distance sequence is empty. A response missing all three gives
  zero fragments and no distances.
\<close>

theorem absent_keys_default_to_empty:
  assumes "documents r \<noteq> Some []" and "metadatas r \<noteq> Some []" and "distances r \<noteq> Some []"
  shows "\<exists>res. search_result r = Inr res \<and>
     (documents r = None \<or> metadatas r = None \<longrightarrow> fragments res = []) \<and>
     (distances r = None \<longrightarrow> metadata res = [(''distances'', [])])"
proof -
  obtain docs dr where d: "get_or_default (documents r) = docs # dr"
    using assms(1) by (cases "documents r"; cases "get_or_default (documents r)")
      (auto simp: get_or_default_def)
  obtain metas mr where m: "get_or_default (metadatas r) = metas # mr"
    using assms(2) by (cases "metadatas r"; cases "get_or_default (metadatas r)")
      (auto simp: get_or_default_def)
  obtain ds sr where s: "get_or_default (distances r) = ds # sr"
    using assms(3) by (cases "distances r"; cases "get_or_default (distances r)")
      (auto simp: get_or_default_def)
  show ?thesis
    unfolding search_result_Inr [OF d m s] using d m s
    by (auto simp: get_or_default_def)
qed

text \<open>The response with none of the three keys.\<close>

theorem absent_keys_default_to_empty_witness:
  "search_result
     \<lparr>documents = None, metadatas = None, distances = (None :: nat list list option)\<rparr> =
   Inr \<lparr>fragments = [], metadata = [(''distances'', [])]\<rparr>"
  using absent_keys_default_to_empty
    [of "\<lparr>documents = None, metadatas = None, distances = (None :: nat list list option)\<rparr>"]
  by auto

text \<open>
  The claim as written fails when a key is absent and another is bound to an empty outer
  list: without \<^verbatim>\<open>documents\<close> and with \<^verbatim>\<open>metadatas\<close> bound to \<^verbatim>\<open>[]\<close>, \<^verbatim>\<open>search\<close> raises
  \<^verbatim>\<open>IndexError\<close>.
\<close>

theorem absent_key_counterexample:
  "documents
     \<lparr>documents = None, metadatas = Some [], distances = (None :: nat list list option)\<rparr> = None \<and>
   search_result
     \<lparr>documents = None, metadatas = Some [], distances = (None :: nat list list option)\<rparr> =
   Inl IndexError"
  by (simp add: search_result_def get_or_default_def)

text \<open>
  C6. For a well-formed engine response (one inner list under each key, as many
  metadata dictionaries as documents), \<^verbatim>\<open>search\<close> returns one fragment per result
  position, in the engine's order: the fragment at position \<open>i\<close> has the \<open>i\<close>-th document
  as content, and its owner and timestamp are what the \<open>i\<close>-th metadata binds to
  \<^verbatim>\<open>"owner"\<close> and \<^verbatim>\<open>"timestamp"\<close> (\<^verbatim>\<open>None\<close> when the key is missing), its namespace what it
  binds to \<^verbatim>\<open>"namespace"\<close>, or \<^verbatim>\<open>"default"\<close> when that key is missing. The distance
  sequence is the only entry of the result's metadata, under \<^verbatim>\<open>"distances"\<close>.
\<close>

theorem search_rebuilds_in_order:
  assumes "documents r = Some [docs]" and "metadatas r = Some [metas]"
    and "distances r = Some [ds]" and "length docs = length metas"
  shows "\<exists>res. search_result r = Inr res \<and>
     length (fragments res) = length docs \<and>
     (\<forall>i < length docs.
        content (fragments res ! i) = docs ! i \<and>
        owner (fragments res ! i) =
          (case map_of (metas ! i) ''owner'' of None \<Rightarrow> PNone | Some v \<Rightarrow> v) \<and>
        namespace (fragments res ! i) =
          (case map_of (metas ! i) ''namespace'' of None \<Rightarrow> PStr ''default'' | Some v \<Rightarrow> v) \<and>
        timestamp (fragments res ! i) =
          (case map_of (metas ! i) ''timestamp'' of None \<Rightarrow> PNone | Some v \<Rightarrow> v)) \<and>
     metadata res = [(''distances'', ds)]"
proof -
  have run: "search_result r =
     Inr \<lparr>fragments = map (\<lambda>(c, m). rebuild_fragment c m) (zip docs metas),
          metadata = [(''distances'', ds)]\<rparr>"
    by (rule search_result_Inr) (simp_all add: assms get_or_default_def)
  show ?thesis
    unfolding run using assms(4)
    by (simp add: rebuild_fragment_def dict_get_def)
qed

text \<open>Two results, the second without a namespace in its metadata; the order is kept.\<close>

theorem search_rebuilds_in_order_witness:
  "search_result
     \<lparr>documents = Some [[''likes jazz'', ''likes tea'']],
      metadatas = Some [[[(''owner'', PStr ''u1''), (''namespace'', PStr ''work''),
                          (''timestamp'', PInt 200)],
                         [(''owner'', PStr ''u1''), (''timestamp'', PInt 100)]]],
      distances = Some [[3, 7 :: nat]]\<rparr> =
   Inr \<lparr>fragments =
          [\<lparr>content = ''likes jazz'', owner = PStr ''u1'', namespace = PStr ''work'',
            timestamp = PInt 200\<rparr>,
           \<lparr>content = ''likes tea'', owner = PStr ''u1'', namespace = PStr ''default'',
            timestamp = PInt 100\<rparr>],
        metadata = [(''distances'', [3, 7])]\<rparr>"
proof -
  let ?r = "\<lparr>documents = Some [[''likes jazz'', ''likes tea'']],
      metadatas = Some [[[(''owner'', PStr ''u1''), (''namespace'', PStr ''work''),
                          (''timestamp'', PInt 200)],
                         [(''owner'', PStr ''u1''), (''timestamp'', PInt 100)]]],
      distances = Some [[3, 7 :: nat]]\<rparr>"
  have "\<exists>res. search_result ?r = Inr res \<and> metadata res = [(''distances'', [3, 7])]"
    using search_rebuilds_in_order [of ?r "[''likes jazz'', ''likes tea'']"
        "[[(''owner'', PStr ''u1''), (''namespace'', PStr ''work''), (''timestamp'', PInt 200)],
          [(''owner'', PStr ''u1''), (''timestamp'', PInt 100)]]" "[3, 7]"]
    by auto
  then show ?thesis
    by (simp add: search_result_def get_or_default_def rebuild_fragment_def dict_get_def)
qed

section \<open>What register stores\<close>

text \<open>
  C1, as amended. For every call \<^verbatim>\<open>register(fragment, extra_metadata)\<close> with a non-empty
  dictionary of extra metadata, the metadata handed to the vector engine binds each
  key of the extra metadata to the caller's value, the reserved keys \<^verbatim>\<open>"owner"\<close>,
  \<^verbatim>\<open>"namespace"\<close> and \<^verbatim>\<open>"timestamp"\<close> included: the extra metadata is written last and
  wins. A reserved key that the extra metadata does not hold is bound to the
  fragment's own field.
\<close>

theorem register_extra_metadata_wins:
  assumes "distinct (map fst md)"
  shows "map_of (doc_metadata (register_document frag (Some md))) k =
     (case map_of md k of
        Some v \<Rightarrow> Some v
      | None \<Rightarrow> map_of [(''owner'', owner frag), (''namespace'', namespace frag),
                        (''timestamp'', timestamp frag)] k)"
  using complete_metadata_lookup [OF assms] by (simp add: register_document_def)

theorem register_extra_metadata_wins_witness:
  "map_of (doc_metadata (register_document
       \<lparr>content = ''likes tea'', owner = PStr ''u1'', namespace = PStr ''default'',
        timestamp = PInt 1000\<rparr>
       (Some [(''topic'', PStr ''drinks''), (''namespace'', PStr ''work'')]))) ''namespace'' =
     Some (PStr ''work'') \<and>
   map_of (doc_metadata (register_document
       \<lparr>content = ''likes tea'', owner = PStr ''u1'', namespace = PStr ''default'',
        timestamp = PInt 1000\<rparr>
       (Some [(''topic'', PStr ''drinks''), (''namespace'', PStr ''work'')]))) ''owner'' =
     Some (PStr ''u1'')"
  using
    register_extra_metadata_wins [of "[(''topic'', PStr ''drinks''), (''namespace'', PStr ''work'')]"
      "\<lparr>content = ''likes tea'', owner = PStr ''u1'', namespace = PStr ''default'',
        timestamp = PInt 1000\<rparr>" "''namespace''"]
    register_extra_metadata_wins [of "[(''topic'', PStr ''drinks''), (''namespace'', PStr ''work'')]"
      "\<lparr>content = ''likes tea'', owner = PStr ''u1'', namespace = PStr ''default'',
        timestamp = PInt 1000\<rparr>" "''owner''"]
  by simp

text \<open>
  The claim as written fails: a fragment of owner \<^verbatim>\<open>"u1"\<close> registered with the extra
  metadata \<^verbatim>\<open>{"owner": "u2"}\<close> is stored under owner \<^verbatim>\<open>"u2"\<close>, not under the fragment's
  own owner.
\<close>

theorem reserved_keys_counterexample:
  "map_of (doc_metadata (register_document
       \<lparr>content = ''likes tea'', owner = PStr ''u1'', namespace = PStr ''default'',
        timestamp = PInt 1000\<rparr>
       (Some [(''owner'', PStr ''u2'')]))) ''owner'' = Some (PStr ''u2'') \<and>
   owner \<lparr>content = ''likes tea'', owner = PStr ''u1'', namespace = PStr ''default'',
        timestamp = PInt 1000\<rparr> = PStr ''u1'' \<and>
   PStr ''u2'' \<noteq> PStr ''u1''"
  by (simp add: register_document_def complete_metadata_def dict_update_def)

section \<open>Enumerating namespaces\<close>

text \<open>
  C7. On the collection reached by any sequence of \<^verbatim>\<open>register\<close> calls from an empty
  collection, \<^verbatim>\<open>get_namespaces\<close> returns a list with one entry per stored record, the
  \<open>i\<close>-th entry being what the \<open>i\<close>-th record's metadata binds to \<^verbatim>\<open>"namespace"\<close>. Nothing
  is deduplicated: a value occurs as often as there are records that hold it. On the
  empty collection the list is empty.
\<close>

theorem get_namespaces_one_per_record:
  "\<exists>ns. get_namespaces (vs_get (register_all [] calls)) = Inr ns \<and>
     length (register_all [] calls) = length calls \<and>
     length ns = length calls \<and>
     (\<forall>i < length calls.
        map_of (doc_metadata (register_all [] calls ! i)) ''namespace'' = Some (ns ! i)) \<and>
     (\<forall>v. count_list ns v =
        length (filter (\<lambda>d. map_of (doc_metadata d) ''namespace'' = Some v)
                  (register_all [] calls))) \<and>
     get_namespaces (vs_get []) = Inr []"
proof -
  let ?store = "register_all [] calls"
  let ?ns = "map (\<lambda>d. dict_get (doc_metadata d) ''namespace'' PNone) ?store"
  have has: "\<forall>d \<in> set ?store. \<exists>v. map_of (doc_metadata d) ''namespace'' = Some v"
    by (auto simp: register_all_append register_document_def complete_metadata_namespace)
  have run: "get_namespaces (vs_get ?store) = Inr ?ns"
    by (rule get_namespaces_vs_get [OF has])
  have len: "length ?store = length calls"
    by (simp add: register_all_append)
  have pos: "\<forall>i < length calls. map_of (doc_metadata (?store ! i)) ''namespace'' = Some (?ns ! i)"
  proof (intro allI impI)
    fix i assume i: "i < length calls"
    then have "?store ! i \<in> set ?store" using len by simp
    with has obtain v where "map_of (doc_metadata (?store ! i)) ''namespace'' = Some v"
      by blast
    then show "map_of (doc_metadata (?store ! i)) ''namespace'' = Some (?ns ! i)"
      using i len by (simp add: dict_get_def)
  qed
  have cnt: "\<forall>v. count_list ?ns v =
        length (filter (\<lambda>d. map_of (doc_metadata d) ''namespace'' = Some v) ?store)"
  proof
    fix v
    have "filter (\<lambda>d. dict_get (doc_metadata d) ''namespace'' PNone = v) ?store =
          filter (\<lambda>d. map_of (doc_metadata d) ''namespace'' = Some v) ?store"
      by (rule filter_cong) (use has in \<open>auto simp: dict_get_def\<close>)
    then show "count_list ?ns v =
        length (filter (\<lambda>d. map_of (doc_metadata d) ''namespace'' = Some v) ?store)"
      by (simp add: count_list_map_filter)
  qed
  show ?thesis
    using run len pos cnt by (simp add: vs_get_def)
qed

text \<open>Three records, two of them in the namespace \<^verbatim>\<open>"default"\<close>, which is listed twice.\<close>

theorem get_namespaces_one_per_record_witness:
  "get_namespaces (vs_get (register_all []
     [(\<lparr>content = ''likes tea'', owner = PStr ''u1'', namespace = PStr ''default'',
        timestamp = PInt 100\<rparr>, None),
      (\<lparr>content = ''likes jazz'', owner = PStr ''u1'', namespace = PStr ''default'',
        timestamp = PInt 200\<rparr>, None),
      (\<lparr>content = ''ships friday'', owner = PStr ''u1'', namespace = PStr ''work'',
        timestamp = PInt 300\<rparr>, None)])) =
   Inr [PStr ''default'', PStr ''default'', PStr ''work'']"
proof -
  let ?calls = "[(\<lparr>content = ''likes tea'', owner = PStr ''u1'', namespace = PStr ''default'',
        timestamp = PInt 100\<rparr>, None),
      (\<lparr>content = ''likes jazz'', owner = PStr ''u1'', namespace = PStr ''default'',
        timestamp = PInt 200\<rparr>, None),
      (\<lparr>content = ''ships friday'', owner = PStr ''u1'', namespace = PStr ''work'',
        timestamp = PInt 300\<rparr>, None)]"
  have "\<exists>ns. get_namespaces (vs_get (register_all [] ?calls)) = Inr ns \<and> length ns = 3"
    using get_namespaces_one_per_record [of ?calls] by auto
  then show ?thesis
    by (simp add: register_all_def register_def register_document_def vs_add_def vs_get_def
        complete_metadata_def entry_namespace_def)
qed

section \<open>Owner isolation\<close>

text \<open>
  C8, as amended. Let the engine answer a \<^verbatim>\<open>search\<close> for owner \<open>a\<close> only with records
  whose metadata satisfies the submitted filter. Then every fragment the search
  returns has owner \<open>a\<close>, so none has the owner of a fragment registered under another
  owner; and the record of a fragment registered under another owner, with no extra
  metadata or with extra metadata that has no \<^verbatim>\<open>"owner"\<close> key, is not among the records
  the engine answered with.
\<close>

theorem search_owner_isolation:
  assumes q: "query [q] limit (build_where ns a tf) = Inr r"
    and h: "\<forall>metas \<in> set (get_or_default (metadatas r)). \<forall>m \<in> set metas.
              satisfies m (build_where ns a tf)"
    and s: "search query q a limit tf ns = Inr res"
    and b: "owner fb \<noteq> PStr a"
    and e: "case extra of None \<Rightarrow> True | Some md \<Rightarrow> ''owner'' \<notin> fst ` set md"
  shows "(\<forall>f \<in> set (fragments res). owner f = PStr a \<and> owner f \<noteq> owner fb) \<and>
         (\<forall>metas \<in> set (get_or_default (metadatas r)).
            doc_metadata (register_document fb extra) \<notin> set metas)"
proof -
  from q s have "search_result r = Inr res"
    by (simp add: search_def)
  then obtain docs metas mr ds where
    m: "get_or_default (metadatas r) = metas # mr" and
    res: "res = \<lparr>fragments = map (\<lambda>(c, m). rebuild_fragment c m) (zip docs metas),
                 metadata = [(''distances'', ds)]\<rparr>"
    unfolding search_result_Inr_iff by blast
  have "\<forall>m \<in> set metas. map_of m ''owner'' = Some (PStr a)"
    using h m satisfies_owner by auto
  then have frag: "\<forall>f \<in> set (fragments res). owner f = PStr a"
    unfolding res by (auto simp: rebuild_fragment_def dict_get_def dest!: set_zip_rightD)
  have stored: "map_of (doc_metadata (register_document fb extra)) ''owner'' = Some (owner fb)"
    using complete_metadata_untouched [OF e, of fb] by (simp add: register_document_def)
  have "\<forall>metas \<in> set (get_or_default (metadatas r)).
            doc_metadata (register_document fb extra) \<notin> set metas"
  proof (intro ballI notI)
    fix ms assume "ms \<in> set (get_or_default (metadatas r))"
      and "doc_metadata (register_document fb extra) \<in> set ms"
    with h have "satisfies (doc_metadata (register_document fb extra)) (build_where ns a tf)"
      by blast
    from satisfies_owner [OF this] stored b show False by simp
  qed
  with frag b show ?thesis by auto
qed

text \<open>Two fragments, of owners \<^verbatim>\<open>"A"\<close> and \<^verbatim>\<open>"B"\<close>; a search for \<^verbatim>\<open>"A"\<close> returns the first.\<close>

theorem search_owner_isolation_witness:
  "search (filtering_query (register_all []
       [(\<lparr>content = ''likes tea'', owner = PStr ''A'', namespace = PStr ''default'',
          timestamp = PInt 100\<rparr>, None),
        (\<lparr>content = ''secret'', owner = PStr ''B'', namespace = PStr ''default'',
          timestamp = PInt 200\<rparr>, None)]))
     ''q'' ''A'' 3 None (Some ''default'') =
   Inr \<lparr>fragments =
          [\<lparr>content = ''likes tea'', owner = PStr ''A'', namespace = PStr ''default'',
            timestamp = PInt 100\<rparr>],
        metadata = [(''distances'', [0])]\<rparr> \<and>
   owner \<lparr>content = ''likes tea'', owner = PStr ''A'', namespace = PStr ''default'',
            timestamp = PInt 100\<rparr> \<noteq> PStr ''B''"
proof -
  let ?fa = "\<lparr>content = ''likes tea'', owner = PStr ''A'', namespace = PStr ''default'',
          timestamp = PInt 100\<rparr>"
  let ?fb = "\<lparr>content = ''secret'', owner = PStr ''B'', namespace = PStr ''default'',
          timestamp = PInt 200\<rparr>"
  let ?store = "register_all [] [(?fa, None), (?fb, None)]"
  let ?r = "\<lparr>documents = Some [[''likes tea'']],
             metadatas = Some [[[(''owner'', PStr ''A''), (''namespace'', PStr ''default''),
                                 (''timestamp'', PInt 100)]]],
             distances = Some [[0 :: nat]]\<rparr>"
  let ?res = "\<lparr>fragments = [?fa], metadata = [(''distances'', [0 :: nat])]\<rparr>"
  have q: "filtering_query ?store [''q''] 3 (build_where (Some ''default'') ''A'' None) = Inr ?r"
    by (simp add: filtering_query_def register_all_def register_def register_document_def
        vs_add_def complete_metadata_def build_where_def str_or_none_def)
  have h: "\<forall>metas \<in> set (get_or_default (metadatas ?r)). \<forall>m \<in> set metas.
              satisfies m (build_where (Some ''default'') ''A'' None)"
    by (simp add: get_or_default_def build_where_def str_or_none_def)
  have s: "search (filtering_query ?store) ''q'' ''A'' 3 None (Some ''default'') = Inr ?res"
    unfolding search_def q
    by (simp add: search_result_def get_or_default_def rebuild_fragment_def dict_get_def)
  have b: "owner ?fb \<noteq> PStr ''A''" by simp
  have e: "case (None :: dict option) of None \<Rightarrow> True | Some md \<Rightarrow> ''owner'' \<notin> fst ` set md"
    by simp
  from search_owner_isolation [OF q h s b e] s show ?thesis
    by simp
qed

text \<open>
  The claim as written fails: a fragment registered under owner \<^verbatim>\<open>"B"\<close> with the extra
  metadata \<^verbatim>\<open>{"owner": "A"}\<close> is stored under owner \<^verbatim>\<open>"A"\<close>, satisfies the filter of a
  search for \<^verbatim>\<open>"A"\<close>, and is returned by it.
\<close>

theorem owner_isolation_counterexample:
  "owner \<lparr>content = ''secret'', owner = PStr ''B'', namespace = PStr ''default'',
          timestamp = PInt 1\<rparr> = PStr ''B'' \<and>
   search (filtering_query (register []
        \<lparr>content = ''secret'', owner = PStr ''B'', namespace = PStr ''default'',
          timestamp = PInt 1\<rparr>
        (Some [(''owner'', PStr ''A'')])))
     ''q'' ''A'' 3 None (Some ''default'') =
   Inr \<lparr>fragments =
          [\<lparr>content = ''secret'', owner = PStr ''A'', namespace = PStr ''default'',
            timestamp = PInt 1\<rparr>],
        metadata = [(''distances'', [0])]\<rparr>"
  by (simp add: search_def filtering_query_def register_def register_document_def vs_add_def
      complete_metadata_def dict_update_def build_where_def str_or_none_def
      search_result_def get_or_default_def rebuild_fragment_def dict_get_def)

section \<open>Construction\<close>

text \<open>
  C9. Constructing a \<^verbatim>\<open>LongTermMemory\<close> asks the engine factory for the collection
  named \<^verbatim>\<open>"long_term_memory"\<close> with \<open>force\<close> set. Whatever the factory held under that
  name before, the collection behind the new store's handle is empty afterwards, and
  the factory's other collections are as they were.
\<close>

theorem init_forces_fresh_collection:
  "LongTermMemory_init db =
     (case create_store db ''long_term_memory'' True of
        (db', h) \<Rightarrow> (db', \<lparr>vector_store = h\<rparr>)) \<and>
   vector_store (snd (LongTermMemory_init db)) = ''long_term_memory'' \<and>
   fst (LongTermMemory_init db) (vector_store (snd (LongTermMemory_init db))) = Some [] \<and>
   (\<forall>n. n \<noteq> ''long_term_memory'' \<longrightarrow> fst (LongTermMemory_init db) n = db n)"
  by (simp add: LongTermMemory_init_def create_store_def)

text \<open>A factory that already holds a record under the name, and another collection.\<close>

theorem init_forces_fresh_collection_witness:
  "fst (LongTermMemory_init
     [''notes'' \<mapsto> [\<lparr>doc_content = ''kept'', doc_metadata = []\<rparr>],
      ''long_term_memory'' \<mapsto> [\<lparr>doc_content = ''old'', doc_metadata = []\<rparr>]])
     ''long_term_memory'' = Some [] \<and>
   fst (LongTermMemory_init
     [''notes'' \<mapsto> [\<lparr>doc_content = ''kept'', doc_metadata = []\<rparr>],
      ''long_term_memory'' \<mapsto> [\<lparr>doc_content = ''old'', doc_metadata = []\<rparr>]])
     ''notes'' = Some [\<lparr>doc_content = ''kept'', doc_metadata = []\<rparr>]"
proof -
  let ?db = "[''notes'' \<mapsto> [\<lparr>doc_content = ''kept'', doc_metadata = []\<rparr>],
              ''long_term_memory'' \<mapsto> [\<lparr>doc_content = ''old'', doc_metadata = []\<rparr>]]"
  from init_forces_fresh_collection [of ?db]
  have name: "vector_store (snd (LongTermMemory_init ?db)) = ''long_term_memory''"
    and fresh: "fst (LongTermMemory_init ?db) (vector_store (snd (LongTermMemory_init ?db))) = Some []"
    and others: "\<forall>n. n \<noteq> ''long_term_memory'' \<longrightarrow> fst (LongTermMemory_init ?db) n = ?db n"
    by blast+
  from others have "fst (LongTermMemory_init ?db) ''notes'' = ?db ''notes''"
    by simp
  with fresh name show ?thesis
    by simp
qed

end
